theory Spec2Isabelle
  imports Main
begin

section \<open>The bearer-token client of dashboard/backend/central\_api\_client.py\<close>

text \<open>
  The class \<open>CentralAPIClient\<close> wraps a \<open>requests.Session\<close>. Its mutable state is the
  session's header mapping and the token manager it consults; both are threaded through
  every operation here. The two collaborators the class does not own are parameters of the
  model: the token manager's \<open>get_access_token\<close> (a state transformer that returns a
  token) and the transport (a state transformer on the outside world that answers a
  request with a response). Log calls have no effect on results and are left out.
\<close>

subsection \<open>Values\<close>

text \<open>
  What \<open>response.json()\<close> can return: any JSON value, not only an object. A float is
  kept as a mantissa and a binary exponent; no property below looks inside a number.
\<close>

datatype json_value =
    JNull
  | JBool bool
  | JInt int
  | JFloat int int
  | JStr string
  | JArr "json_value list"
  | JObj "(string \<times> json_value) list"

type_synonym py_dict = "(string \<times> json_value) list"

text \<open>\<open>isinstance(v, dict)\<close>.\<close>

fun is_mapping :: "json_value \<Rightarrow> bool" where
  "is_mapping (JObj kvs) = True"
| "is_mapping v = False"

text \<open>
  The exceptions that leave the class: the \<open>ValueError\<close> of the constructor, the
  \<open>HTTPError\<close> of \<open>raise_for_status\<close> (it carries the response, of which the status
  is kept), and the decode error of \<open>response.json()\<close>, a subclass of \<open>ValueError\<close>.
\<close>

datatype error =
    ValueError string
  | HTTPError int
  | JSONDecodeError

datatype http_method = GET | POST | PUT | DELETE

record request =
  meth :: http_method
  url :: string
  req_headers :: "string \<rightharpoonup> string"
  params :: "py_dict option"
  json_body :: "py_dict option"

text \<open>
  A response as the client observes it: the status code, the body text, and the outcome
  of \<open>response.json()\<close>, where \<open>None\<close> stands for the decode error it raises.
\<close>

record response =
  status_code :: int
  body_text :: string
  json :: "json_value option"

text \<open>
  \<open>Response.raise_for_status\<close> of the requests library raises for the client-error
  range 400..499 and the server-error range 500..599, and for no other status.
\<close>

definition raise_for_status :: "response \<Rightarrow> error + unit" where
  "raise_for_status r =
     (if 400 \<le> status_code r \<and> status_code r < 500 then Inl (HTTPError (status_code r))
      else if 500 \<le> status_code r \<and> status_code r < 600 then Inl (HTTPError (status_code r))
      else Inr ())"

subsection \<open>String helpers\<close>

text \<open>
  \<open>str.isspace\<close> on the code points a \<open>char\<close> covers (0..255), \<open>str.strip()\<close> and
  \<open>str.rstrip(chars)\<close>.
\<close>

definition isspace :: "char \<Rightarrow> bool" where
  "isspace c = (of_char c \<in> {9, 10, 11, 12, 13, 28, 29, 30, 31, 32, 133, 160 :: nat})"

definition strip :: "string \<Rightarrow> string" where
  "strip s = rev (dropWhile isspace (rev (dropWhile isspace s)))"

definition rstrip :: "string \<Rightarrow> string \<Rightarrow> string" where
  "rstrip chars s = rev (dropWhile (\<lambda>c. c \<in> set chars) (rev s))"

subsection \<open>The client\<close>

record 'p CentralAPIClient =
  base_url :: string
  token_manager :: "'p option"
  headers :: "string \<rightharpoonup> string"

definition update_token :: "'p CentralAPIClient \<Rightarrow> string \<Rightarrow> 'p CentralAPIClient" where
  "update_token self access_token =
     self\<lparr>headers := (headers self)(''Authorization'' \<mapsto> ''Bearer '' @ access_token)\<rparr>"

text \<open>
  \<open>__init__\<close>. \<open>session_headers\<close> is the header mapping of the fresh
  \<open>requests.Session()\<close>. The truth tests are Python's: a token manager object is true,
  a string is true when it is not empty. Header names are compared as written; the class
  writes each of its two names in one spelling only.
\<close>

definition init ::
  "('p \<Rightarrow> string \<times> 'p) \<Rightarrow> (string \<rightharpoonup> string) \<Rightarrow> string \<Rightarrow> string option \<Rightarrow> 'p option
     \<Rightarrow> error + 'p CentralAPIClient" where
  "init get_access_token session_headers base access_token tm_opt =
     (let self = \<lparr>base_url = rstrip ''/'' base,
                  token_manager = tm_opt,
                  headers = session_headers(''Content-Type'' \<mapsto> ''application/json'')\<rparr>
      in case tm_opt of
           Some tm \<Rightarrow>
             (case get_access_token tm of
                (tok, tm') \<Rightarrow> Inr (update_token (self\<lparr>token_manager := Some tm'\<rparr>) tok))
         | None \<Rightarrow>
             (case access_token of
                Some tok \<Rightarrow>
                  if tok \<noteq> [] then Inr (update_token self tok)
                  else Inl (ValueError ''Either access_token or token_manager must be provided'')
              | None \<Rightarrow>
                  Inl (ValueError ''Either access_token or token_manager must be provided'')))"

definition ensure_valid_token ::
  "('p \<Rightarrow> string \<times> 'p) \<Rightarrow> 'p CentralAPIClient \<Rightarrow> 'p CentralAPIClient" where
  "ensure_valid_token get_access_token self =
     (case token_manager self of
        Some tm \<Rightarrow>
          (case get_access_token tm of
             (tok, tm') \<Rightarrow> update_token (self\<lparr>token_manager := Some tm'\<rparr>) tok)
      | None \<Rightarrow> self)"

text \<open>
  The verbs return the result (or the exception raised), the client and the world after
  the call. A raise does not undo the header update made before it.
\<close>

definition get ::
  "('p \<Rightarrow> string \<times> 'p) \<Rightarrow> (request \<Rightarrow> 'w \<Rightarrow> response \<times> 'w) \<Rightarrow> 'p CentralAPIClient \<Rightarrow> 'w
     \<Rightarrow> string \<Rightarrow> py_dict option \<Rightarrow> (error + json_value) \<times> 'p CentralAPIClient \<times> 'w" where
  "get get_access_token send self w endpoint ps =
     (let self' = ensure_valid_token get_access_token self;
          u = base_url self' @ endpoint
      in case send \<lparr>meth = GET, url = u, req_headers = headers self',
                     params = ps, json_body = None\<rparr> w of
           (resp, w') \<Rightarrow>
             ((case raise_for_status resp of
                 Inl e \<Rightarrow> Inl e
               | Inr _ \<Rightarrow>
                   if body_text resp = [] \<or> strip (body_text resp) = [] then Inr (JObj [])
                   else (case json resp of
                           None \<Rightarrow> Inr (JObj [])
                         | Some json_data \<Rightarrow>
                             if json_data = JNull then Inr (JObj []) else Inr json_data)),
              self', w'))"

definition post ::
  "('p \<Rightarrow> string \<times> 'p) \<Rightarrow> (request \<Rightarrow> 'w \<Rightarrow> response \<times> 'w) \<Rightarrow> 'p CentralAPIClient \<Rightarrow> 'w
     \<Rightarrow> string \<Rightarrow> py_dict option \<Rightarrow> py_dict option
     \<Rightarrow> (error + json_value) \<times> 'p CentralAPIClient \<times> 'w" where
  "post get_access_token send self w endpoint data ps =
     (let self' = ensure_valid_token get_access_token self;
          u = base_url self' @ endpoint
      in case send \<lparr>meth = POST, url = u, req_headers = headers self',
                     params = ps, json_body = data\<rparr> w of
           (resp, w') \<Rightarrow>
             ((case raise_for_status resp of
                 Inl e \<Rightarrow> Inl e
               | Inr _ \<Rightarrow>
                   (case json resp of None \<Rightarrow> Inl JSONDecodeError | Some v \<Rightarrow> Inr v)),
              self', w'))"

definition put ::
  "('p \<Rightarrow> string \<times> 'p) \<Rightarrow> (request \<Rightarrow> 'w \<Rightarrow> response \<times> 'w) \<Rightarrow> 'p CentralAPIClient \<Rightarrow> 'w
     \<Rightarrow> string \<Rightarrow> py_dict option \<Rightarrow> py_dict option
     \<Rightarrow> (error + json_value) \<times> 'p CentralAPIClient \<times> 'w" where
  "put get_access_token send self w endpoint data ps =
     (let self' = ensure_valid_token get_access_token self;
          u = base_url self' @ endpoint
      in case send \<lparr>meth = PUT, url = u, req_headers = headers self',
                     params = ps, json_body = data\<rparr> w of
           (resp, w') \<Rightarrow>
             ((case raise_for_status resp of
                 Inl e \<Rightarrow> Inl e
               | Inr _ \<Rightarrow>
                   (case json resp of None \<Rightarrow> Inl JSONDecodeError | Some v \<Rightarrow> Inr v)),
              self', w'))"

definition delete ::
  "('p \<Rightarrow> string \<times> 'p) \<Rightarrow> (request \<Rightarrow> 'w \<Rightarrow> response \<times> 'w) \<Rightarrow> 'p CentralAPIClient \<Rightarrow> 'w
     \<Rightarrow> string \<Rightarrow> py_dict option
     \<Rightarrow> (error + json_value) \<times> 'p CentralAPIClient \<times> 'w" where
  "delete get_access_token send self w endpoint ps =
     (let self' = ensure_valid_token get_access_token self;
          u = base_url self' @ endpoint
      in case send \<lparr>meth = DELETE, url = u, req_headers = headers self',
                     params = ps, json_body = None\<rparr> w of
           (resp, w') \<Rightarrow>
             ((case raise_for_status resp of
                 Inl e \<Rightarrow> Inl e
               | Inr _ \<Rightarrow>
                   (case json resp of None \<Rightarrow> Inl JSONDecodeError | Some v \<Rightarrow> Inr v)),
              self', w'))"

subsection \<open>Callers\<close>

text \<open>
  A caller's use of a client over its lifetime: a sequence of verb calls, each on the
  client and the world the previous one left. An exception reaches the caller, who goes
  on with the next call; the results are collected in order.
\<close>

datatype call =
    Get string "py_dict option"
  | Post string "py_dict option" "py_dict option"
  | Put string "py_dict option" "py_dict option"
  | Delete string "py_dict option"

fun endpoint_of :: "call \<Rightarrow> string" where
  "endpoint_of (Get e ps) = e"
| "endpoint_of (Post e d ps) = e"
| "endpoint_of (Put e d ps) = e"
| "endpoint_of (Delete e ps) = e"

fun invoke ::
  "('p \<Rightarrow> string \<times> 'p) \<Rightarrow> (request \<Rightarrow> 'w \<Rightarrow> response \<times> 'w) \<Rightarrow> call \<Rightarrow> 'p CentralAPIClient \<Rightarrow> 'w
     \<Rightarrow> (error + json_value) \<times> 'p CentralAPIClient \<times> 'w" where
  "invoke gat send (Get e ps) self w = get gat send self w e ps"
| "invoke gat send (Post e d ps) self w = post gat send self w e d ps"
| "invoke gat send (Put e d ps) self w = put gat send self w e d ps"
| "invoke gat send (Delete e ps) self w = delete gat send self w e ps"

fun run_calls ::
  "('p \<Rightarrow> string \<times> 'p) \<Rightarrow> (request \<Rightarrow> 'w \<Rightarrow> response \<times> 'w) \<Rightarrow> call list \<Rightarrow> 'p CentralAPIClient \<Rightarrow> 'w
     \<Rightarrow> (error + json_value) list \<times> 'p CentralAPIClient \<times> 'w" where
  "run_calls gat send [] self w = ([], self, w)"
| "run_calls gat send (c # cs) self w =
     (case invoke gat send c self w of
        (res, self', w') \<Rightarrow>
          (case run_calls gat send cs self' w' of
             (rs, self'', w'') \<Rightarrow> (res # rs, self'', w'')))"

text \<open>
  Observation devices, used to state what a client did: \<open>recording\<close> wraps a transport
  so that the world also keeps the list of requests issued, in order; \<open>counting\<close> wraps a
  token manager so that its state also keeps the number of \<open>get_access_token\<close> calls
  made; \<open>issued_tokens\<close> lists the tokens that the next \<open>n\<close> calls of a token manager
  return; \<open>authorization\<close> reads the Authorization header of a request.
\<close>

definition recording ::
  "(request \<Rightarrow> 'w \<Rightarrow> response \<times> 'w) \<Rightarrow> request \<Rightarrow> request list \<times> 'w
     \<Rightarrow> response \<times> (request list \<times> 'w)" where
  "recording send r lw =
     (case lw of (log, w) \<Rightarrow> case send r w of (resp, w') \<Rightarrow> (resp, (log @ [r], w')))"

definition counting :: "('p \<Rightarrow> string \<times> 'p) \<Rightarrow> nat \<times> 'p \<Rightarrow> string \<times> (nat \<times> 'p)" where
  "counting gat ntm = (case ntm of (n, tm) \<Rightarrow> case gat tm of (tok, tm') \<Rightarrow> (tok, (Suc n, tm')))"

fun issued_tokens :: "('p \<Rightarrow> string \<times> 'p) \<Rightarrow> 'p \<Rightarrow> nat \<Rightarrow> string list" where
  "issued_tokens gat tm 0 = []"
| "issued_tokens gat tm (Suc n) = (case gat tm of (tok, tm') \<Rightarrow> tok # issued_tokens gat tm' n)"

text \<open>
  Concrete collaborators for evaluating the model: a transport that answers every request
  with one response, a token manager that always returns one token, a token manager that
  hands out the tokens of a list in turn, and a session without default headers.
\<close>

definition replying :: "response \<Rightarrow> request \<Rightarrow> 'w \<Rightarrow> response \<times> 'w" where
  "replying resp r w = (resp, w)"

definition fixed_token :: "string \<Rightarrow> 'p \<Rightarrow> string \<times> 'p" where
  "fixed_token tok tm = (tok, tm)"

fun rotating :: "string list \<Rightarrow> string \<times> string list" where
  "rotating [] = ([], [])"
| "rotating (t # ts) = (t, ts @ [t])"

definition no_headers :: "string \<rightharpoonup> string" where
  "no_headers = Map.empty"

definition authorization :: "request \<Rightarrow> string option" where
  "authorization r = req_headers r ''Authorization''"

definition static_client :: "unit CentralAPIClient" where
  "static_client =
     \<lparr>base_url = ''https://central.example'', token_manager = None,
      headers = no_headers(''Content-Type'' \<mapsto> ''application/json'',
                           ''Authorization'' \<mapsto> ''Bearer abc'')\<rparr>"

definition rotating_client :: "string list CentralAPIClient" where
  "rotating_client =
     \<lparr>base_url = ''https://central.example'', token_manager = Some [''t1'', ''t2''],
      headers = no_headers(''Content-Type'' \<mapsto> ''application/json'',
                           ''Authorization'' \<mapsto> ''Bearer t0'')\<rparr>"

definition ok_response :: response where
  "ok_response = \<lparr>status_code = 200, body_text = ''{}'', json = Some (JObj [])\<rparr>"

section \<open>Properties\<close>

subsection \<open>What a verb returns, given the response the transport answers with\<close>

lemma get_result:
  assumes "\<And>r. fst (send r w) = resp"
  shows "fst (get gat send self w e ps) =
     (case raise_for_status resp of
        Inl err \<Rightarrow> Inl err
      | Inr _ \<Rightarrow>
          if body_text resp = [] \<or> strip (body_text resp) = [] then Inr (JObj [])
          else (case json resp of
                  None \<Rightarrow> Inr (JObj [])
                | Some json_data \<Rightarrow> if json_data = JNull then Inr (JObj []) else Inr json_data))"
proof -
  let ?r = "\<lparr>meth = GET, url = base_url (ensure_valid_token gat self) @ e,
             req_headers = headers (ensure_valid_token gat self), params = ps, json_body = None\<rparr>"
  obtain w' where "send ?r w = (resp, w')"
    using assms[of ?r] by (cases "send ?r w") simp
  then show ?thesis
    by (simp add: get_def Let_def)
qed

lemma post_result:
  assumes "\<And>r. fst (send r w) = resp"
  shows "fst (post gat send self w e d ps) =
     (case raise_for_status resp of
        Inl err \<Rightarrow> Inl err
      | Inr _ \<Rightarrow> (case json resp of None \<Rightarrow> Inl JSONDecodeError | Some v \<Rightarrow> Inr v))"
proof -
  let ?r = "\<lparr>meth = POST, url = base_url (ensure_valid_token gat self) @ e,
             req_headers = headers (ensure_valid_token gat self), params = ps, json_body = d\<rparr>"
  obtain w' where "send ?r w = (resp, w')"
    using assms[of ?r] by (cases "send ?r w") simp
  then show ?thesis
    by (simp add: post_def Let_def)
qed

lemma put_result:
  assumes "\<And>r. fst (send r w) = resp"
  shows "fst (put gat send self w e d ps) =
     (case raise_for_status resp of
        Inl err \<Rightarrow> Inl err
      | Inr _ \<Rightarrow> (case json resp of None \<Rightarrow> Inl JSONDecodeError | Some v \<Rightarrow> Inr v))"
proof -
  let ?r = "\<lparr>meth = PUT, url = base_url (ensure_valid_token gat self) @ e,
             req_headers = headers (ensure_valid_token gat self), params = ps, json_body = d\<rparr>"
  obtain w' where "send ?r w = (resp, w')"
    using assms[of ?r] by (cases "send ?r w") simp
  then show ?thesis
    by (simp add: put_def Let_def)
qed

lemma delete_result:
  assumes "\<And>r. fst (send r w) = resp"
  shows "fst (delete gat send self w e ps) =
     (case raise_for_status resp of
        Inl err \<Rightarrow> Inl err
      | Inr _ \<Rightarrow> (case json resp of None \<Rightarrow> Inl JSONDecodeError | Some v \<Rightarrow> Inr v))"
proof -
  let ?r = "\<lparr>meth = DELETE, url = base_url (ensure_valid_token gat self) @ e,
             req_headers = headers (ensure_valid_token gat self), params = ps, json_body = None\<rparr>"
  obtain w' where "send ?r w = (resp, w')"
    using assms[of ?r] by (cases "send ?r w") simp
  then show ?thesis
    by (simp add: delete_def Let_def)
qed

lemma replying_answers: "fst (replying resp r w) = resp"
  by (simp add: replying_def)

subsection \<open>What a call does to the client and to the log of requests\<close>

lemma ensure_valid_token_base_url [simp]:
  "base_url (ensure_valid_token gat self) = base_url self"
  by (simp add: ensure_valid_token_def update_token_def split: option.splits prod.splits)

lemma ensure_valid_token_static:
  "token_manager self = None \<Longrightarrow> ensure_valid_token gat self = self"
  by (simp add: ensure_valid_token_def)

lemma ensure_valid_token_provider:
  "token_manager self = Some tm \<Longrightarrow>
     ensure_valid_token gat self =
       self\<lparr>token_manager := Some (snd (gat tm)),
            headers := (headers self)(''Authorization'' \<mapsto> ''Bearer '' @ fst (gat tm))\<rparr>"
  by (simp add: ensure_valid_token_def update_token_def split: prod.splits)

lemma invoke_client:
  "fst (snd (invoke gat send c self w)) = ensure_valid_token gat self"
  by (cases c) (simp_all add: get_def post_def put_def delete_def Let_def split: prod.splits)

lemma invoke_recording_log:
  "\<exists>r w'. snd (snd (invoke gat (recording send) c self (log, w))) = (log @ [r], w')
      \<and> url r = base_url self @ endpoint_of c
      \<and> req_headers r = headers (ensure_valid_token gat self)"
  by (cases c)
     (simp_all add: get_def post_def put_def delete_def Let_def recording_def split: prod.splits)

lemma run_calls_Cons_client:
  "fst (snd (run_calls gat send (c # cs) self w)) =
     fst (snd (run_calls gat send cs (fst (snd (invoke gat send c self w)))
                 (snd (snd (invoke gat send c self w)))))"
  by (simp split: prod.splits)

lemma run_calls_Cons_world:
  "snd (snd (run_calls gat send (c # cs) self w)) =
     snd (snd (run_calls gat send cs (fst (snd (invoke gat send c self w)))
                 (snd (snd (invoke gat send c self w)))))"
  by (simp split: prod.splits)

lemma run_calls_static_client:
  "token_manager self = None \<Longrightarrow> fst (snd (run_calls gat send calls self w)) = self"
proof (induction calls arbitrary: w)
  case Nil
  show ?case by simp
next
  case (Cons c cs)
  have "fst (snd (invoke gat send c self w)) = self"
    using Cons.prems by (simp add: invoke_client ensure_valid_token_static)
  then show ?case
    using Cons.IH Cons.prems by (simp only: run_calls_Cons_client)
qed

lemma run_calls_urls:
  "map url (fst (snd (snd (run_calls gat (recording send) calls self (log, w))))) =
     map url log @ map (\<lambda>c. base_url self @ endpoint_of c) calls"
proof (induction calls arbitrary: self log w)
  case Nil
  show ?case by simp
next
  case (Cons c cs)
  obtain r w' where step:
    "snd (snd (invoke gat (recording send) c self (log, w))) = (log @ [r], w')"
    "url r = base_url self @ endpoint_of c"
    using invoke_recording_log[of gat send c self log w] by blast
  have "map url (fst (snd (snd (run_calls gat (recording send) (c # cs) self (log, w))))) =
        map url (fst (snd (snd (run_calls gat (recording send) cs
                    (ensure_valid_token gat self) (log @ [r], w')))))"
    by (simp only: run_calls_Cons_world invoke_client step(1))
  also have "\<dots> = map url (log @ [r]) @
                   map (\<lambda>c. base_url (ensure_valid_token gat self) @ endpoint_of c) cs"
    by (rule Cons.IH)
  finally have "map url (fst (snd (snd (run_calls gat (recording send) (c # cs) self (log, w))))) =
        map url (log @ [r]) @
          map (\<lambda>c. base_url (ensure_valid_token gat self) @ endpoint_of c) cs" .
  then show ?case
    by (simp del: run_calls.simps add: step(2))
qed

lemma run_calls_static_authorization:
  assumes "token_manager self = None"
  shows "map authorization (fst (snd (snd (run_calls gat (recording send) calls self (log, w))))) =
     map authorization log @ replicate (length calls) (headers self ''Authorization'')"
proof (induction calls arbitrary: log w)
  case Nil
  show ?case by simp
next
  case (Cons c cs)
  obtain r w' where step:
    "snd (snd (invoke gat (recording send) c self (log, w))) = (log @ [r], w')"
    "req_headers r = headers (ensure_valid_token gat self)"
    using invoke_recording_log[of gat send c self log w] by blast
  have same: "ensure_valid_token gat self = self"
    using assms by (rule ensure_valid_token_static)
  have "map authorization (fst (snd (snd (run_calls gat (recording send) (c # cs) self (log, w))))) =
        map authorization (fst (snd (snd (run_calls gat (recording send) cs self (log @ [r], w')))))"
    by (simp only: run_calls_Cons_world invoke_client step(1) same)
  also have "\<dots> = map authorization (log @ [r]) @ replicate (length cs) (headers self ''Authorization'')"
    by (rule Cons.IH)
  finally have "map authorization (fst (snd (snd (run_calls gat (recording send) (c # cs) self (log, w))))) =
        map authorization (log @ [r]) @ replicate (length cs) (headers self ''Authorization'')" .
  moreover have "authorization r = headers self ''Authorization''"
    using step(2) same by (simp add: authorization_def)
  ultimately show ?case
    by (simp del: run_calls.simps)
qed

lemma run_calls_provider_authorization:
  "token_manager self = Some tm \<Longrightarrow>
   map authorization (fst (snd (snd (run_calls gat (recording send) calls self (log, w))))) =
     map authorization log @ map (\<lambda>t. Some (''Bearer '' @ t)) (issued_tokens gat tm (length calls))"
proof (induction calls arbitrary: self tm log w)
  case Nil
  show ?case by simp
next
  case (Cons c cs)
  let ?self' = "ensure_valid_token gat self"
  obtain r w' where step:
    "snd (snd (invoke gat (recording send) c self (log, w))) = (log @ [r], w')"
    "req_headers r = headers ?self'"
    using invoke_recording_log[of gat send c self log w] by blast
  have self': "?self' = self\<lparr>token_manager := Some (snd (gat tm)),
            headers := (headers self)(''Authorization'' \<mapsto> ''Bearer '' @ fst (gat tm))\<rparr>"
    using Cons.prems by (rule ensure_valid_token_provider)
  have tm': "token_manager ?self' = Some (snd (gat tm))"
    by (simp add: self')
  have auth: "authorization r = Some (''Bearer '' @ fst (gat tm))"
    by (simp add: authorization_def step(2) self')
  have "map authorization (fst (snd (snd (run_calls gat (recording send) (c # cs) self (log, w))))) =
        map authorization (fst (snd (snd (run_calls gat (recording send) cs ?self' (log @ [r], w')))))"
    by (simp only: run_calls_Cons_world invoke_client step(1))
  also have "\<dots> = map authorization (log @ [r]) @
                   map (\<lambda>t. Some (''Bearer '' @ t)) (issued_tokens gat (snd (gat tm)) (length cs))"
    using tm' by (rule Cons.IH)
  finally have "map authorization (fst (snd (snd (run_calls gat (recording send) (c # cs) self (log, w))))) =
        map authorization (log @ [r]) @
          map (\<lambda>t. Some (''Bearer '' @ t)) (issued_tokens gat (snd (gat tm)) (length cs))" .
  then show ?case
    by (simp del: run_calls.simps add: auth split: prod.splits)
qed

lemma rstrip_decompose:
  "s = rstrip chars s @ rev (takeWhile (\<lambda>c. c \<in> set chars) (rev s))"
proof -
  have "rev (dropWhile P xs) @ rev (takeWhile P xs) = rev xs" for P and xs :: string
    by (simp del: rev_append add: rev_append[symmetric])
  from this[of "\<lambda>c. c \<in> set chars" "rev s"] show ?thesis
    by (simp add: rstrip_def)
qed

lemma takeWhile_single_char:
  "takeWhile (\<lambda>c. c \<in> set [a]) xs = replicate (length (takeWhile (\<lambda>c. c \<in> set [a]) xs)) a"
  by (induction xs) simp_all

lemma rstrip_slash_tail:
  "\<exists>n. s = rstrip ''/'' s @ replicate n CHR ''/''"
proof -
  let ?t = "takeWhile (\<lambda>c. c \<in> set ''/'') (rev s)"
  have "?t = replicate (length ?t) CHR ''/''"
    by (rule takeWhile_single_char)
  then have "rev ?t = replicate (length ?t) CHR ''/''"
    by (metis rev_replicate)
  then have "s = rstrip ''/'' s @ replicate (length ?t) CHR ''/''"
    using rstrip_decompose[of s "''/''"] by simp
  then show ?thesis ..
qed

lemma rstrip_no_trailing:
  "rstrip chars s \<noteq> t @ [c] \<or> c \<notin> set chars"
proof (cases "c \<in> set chars")
  case False
  then show ?thesis by simp
next
  case True
  have "rstrip chars s \<noteq> t @ [c]"
  proof
    assume "rstrip chars s = t @ [c]"
    then have "dropWhile (\<lambda>c. c \<in> set chars) (rev s) = c # rev t"
      by (metis rev_eq_Cons_iff rev_rev_ident rstrip_def)
    then have "\<not> (c \<in> set chars)"
      by (metis (mono_tags, lifting) hd_dropWhile list.sel(1) list.simps(3))
    with True show False by simp
  qed
  then show ?thesis by simp
qed

lemma init_base_url:
  "init gat h0 base tok tmo = Inr self \<Longrightarrow> base_url self = rstrip ''/'' base"
  by (auto simp add: init_def update_token_def Let_def split: option.splits prod.splits if_splits)

lemma init_static:
  "init gat h0 base (Some tok) None = Inr self \<Longrightarrow>
     token_manager self = None \<and> headers self ''Authorization'' = Some (''Bearer '' @ tok)"
  by (auto simp add: init_def update_token_def Let_def split: if_splits)

subsection \<open>Decoding of response bodies\<close>

text \<open>
  Claim C1. On a success status (below 400), GET returns the empty mapping and raises
  nothing when the body is empty or blank, when the body does not decode as JSON, and
  when it decodes to null.
\<close>

theorem get_degenerate_body_gives_empty_mapping:
  assumes "\<And>r. fst (send r w) = resp"
    and "status_code resp < 400"
    and "body_text resp = [] \<or> strip (body_text resp) = [] \<or> json resp = None \<or> json resp = Some JNull"
  shows "fst (get gat send self w e ps) = Inr (JObj [])"
  using assms(2,3)
  by (auto simp add: get_result[of send w resp, OF assms(1)] raise_for_status_def split: option.splits)

theorem get_degenerate_body_gives_empty_mapping_witness:
  "fst (get (fixed_token ''abc'') (replying \<lparr>status_code = 200, body_text = '' '', json = None\<rparr>)
          static_client () ''/aps'' None) = Inr (JObj [])
   \<and> fst (get (fixed_token ''abc'') (replying \<lparr>status_code = 200, body_text = ''not json'', json = None\<rparr>)
          static_client () ''/aps'' None) = Inr (JObj [])
   \<and> fst (get (fixed_token ''abc'') (replying \<lparr>status_code = 200, body_text = ''null'', json = Some JNull\<rparr>)
          static_client () ''/aps'' None) = Inr (JObj [])"
  using get_degenerate_body_gives_empty_mapping
          [of "replying \<lparr>status_code = 200, body_text = '' '', json = None\<rparr>" "()"
              "\<lparr>status_code = 200, body_text = '' '', json = None\<rparr>"
              "fixed_token ''abc''" static_client "''/aps''" None]
        get_degenerate_body_gives_empty_mapping
          [of "replying \<lparr>status_code = 200, body_text = ''not json'', json = None\<rparr>" "()"
              "\<lparr>status_code = 200, body_text = ''not json'', json = None\<rparr>"
              "fixed_token ''abc''" static_client "''/aps''" None]
        get_degenerate_body_gives_empty_mapping
          [of "replying \<lparr>status_code = 200, body_text = ''null'', json = Some JNull\<rparr>" "()"
              "\<lparr>status_code = 200, body_text = ''null'', json = Some JNull\<rparr>"
              "fixed_token ''abc''" static_client "''/aps''" None]
  by (simp add: replying_answers)

text \<open>
  Claim C2. On a status 200 response whose body does not decode as JSON, POST, PUT and
  DELETE raise the decode error, while GET on the same response raises nothing and returns
  the empty mapping.
\<close>

theorem decode_error_asymmetry:
  assumes "\<And>r. fst (send r w) = resp"
    and "status_code resp = 200"
    and "json resp = None"
  shows "fst (post gat send self w e d ps) = Inl JSONDecodeError
       \<and> fst (put gat send self w e d ps) = Inl JSONDecodeError
       \<and> fst (delete gat send self w e ps) = Inl JSONDecodeError
       \<and> fst (get gat send self w e ps) = Inr (JObj [])"
  using assms(2,3)
  by (simp add: get_result[of send w resp, OF assms(1)] post_result[of send w resp, OF assms(1)] put_result[of send w resp, OF assms(1)]
        delete_result[of send w resp, OF assms(1)] raise_for_status_def)

theorem decode_error_asymmetry_witness:
  "fst (post (fixed_token ''abc'') (replying \<lparr>status_code = 200, body_text = ''not json'', json = None\<rparr>)
          static_client () ''/wlans'' None None) = Inl JSONDecodeError
   \<and> fst (put (fixed_token ''abc'') (replying \<lparr>status_code = 200, body_text = ''not json'', json = None\<rparr>)
          static_client () ''/wlans'' None None) = Inl JSONDecodeError
   \<and> fst (delete (fixed_token ''abc'') (replying \<lparr>status_code = 200, body_text = ''not json'', json = None\<rparr>)
          static_client () ''/wlans'' None) = Inl JSONDecodeError
   \<and> fst (get (fixed_token ''abc'') (replying \<lparr>status_code = 200, body_text = ''not json'', json = None\<rparr>)
          static_client () ''/wlans'' None) = Inr (JObj [])"
  using decode_error_asymmetry
          [of "replying \<lparr>status_code = 200, body_text = ''not json'', json = None\<rparr>" "()"
              "\<lparr>status_code = 200, body_text = ''not json'', json = None\<rparr>"
              "fixed_token ''abc''" static_client "''/wlans''" None None]
  by (simp add: replying_answers)

subsection \<open>Construction\<close>

text \<open>
  Claim C3. Construction fails with the configuration error when neither credential
  source is given, and succeeds when at least one is. As stated this fails on the code:
  the constructor tests the static token for truth, so an empty string given as the token
  (with no token manager) is refused like an absent one.
\<close>

theorem init_rejects_empty_static_token_counterexample:
  "init (fixed_token ''unused'') no_headers ''https://central.example'' (Some '''') (None :: unit option)
     = Inl (ValueError ''Either access_token or token_manager must be provided'')"
  by (simp add: init_def)

text \<open>
  Claim C3, amended. Construction fails, with the configuration error, exactly when no
  token manager is given and the static token is absent or the empty string; in every
  other case it produces a client.
\<close>

theorem init_fails_iff_no_usable_credential:
  "(init gat h0 base tok tmo = Inl (ValueError ''Either access_token or token_manager must be provided''))
     = (tmo = None \<and> (tok = None \<or> tok = Some []))
   \<and> (\<exists>self. init gat h0 base tok tmo = Inr self)
     = (tmo \<noteq> None \<or> (\<exists>t. tok = Some t \<and> t \<noteq> []))"
  by (auto simp add: init_def Let_def split: option.splits prod.splits)

theorem init_fails_iff_no_usable_credential_witness:
  "init (fixed_token ''unused'') no_headers ''https://central.example'' None (None :: unit option)
     = Inl (ValueError ''Either access_token or token_manager must be provided'')
   \<and> (\<exists>self. init (fixed_token ''unused'') no_headers ''https://central.example'' (Some ''abc'') (None :: unit option) = Inr self)
   \<and> (\<exists>self. init (fixed_token ''xyz'') no_headers ''https://central.example'' None (Some ()) = Inr self)"
  using init_fails_iff_no_usable_credential
          [of "fixed_token ''unused''" no_headers "''https://central.example''" None "None :: unit option"]
        init_fails_iff_no_usable_credential
          [of "fixed_token ''unused''" no_headers "''https://central.example''" "Some ''abc''" "None :: unit option"]
        init_fails_iff_no_usable_credential
          [of "fixed_token ''xyz''" no_headers "''https://central.example''" None "Some ()"]
  by simp

text \<open>
  Claim C4. With a token manager, construction makes exactly one
  \<open>get_access_token\<close> call (the counter of the manager goes from \<open>n\<close> to
  \<open>n + 1\<close> with no verb called) and installs the token it returned in the
  Authorization header.
\<close>

theorem init_fetches_token_once:
  "init (counting gat) h0 base tok (Some (n, tm)) =
     Inr \<lparr>base_url = rstrip ''/'' base,
          token_manager = Some (Suc n, snd (gat tm)),
          headers = h0(''Content-Type'' \<mapsto> ''application/json'',
                       ''Authorization'' \<mapsto> ''Bearer '' @ fst (gat tm))\<rparr>"
  by (simp add: init_def counting_def update_token_def split: prod.splits)

theorem init_fetches_token_once_witness:
  "init (counting rotating) no_headers ''https://central.example/'' None (Some (0, [''t1'', ''t2''])) =
     Inr \<lparr>base_url = ''https://central.example'',
          token_manager = Some (1, [''t2'', ''t1'']),
          headers = no_headers(''Content-Type'' \<mapsto> ''application/json'',
                               ''Authorization'' \<mapsto> ''Bearer t1'')\<rparr>"
  using init_fetches_token_once [of rotating no_headers "''https://central.example/''" None 0 "[''t1'', ''t2'']"]
  by (simp add: rstrip_def)

subsection \<open>The Authorization header over the calls\<close>

text \<open>
  Claim C5. With a token manager configured, every verb fetches the manager's current
  token and overwrites the Authorization header with it before the request goes out: the
  request of a call carries the token fetched in that call, and over any sequence of calls
  the requests carry, in order, the tokens the manager returned; so two calls between
  which the token changes carry their two distinct tokens.
\<close>

theorem provider_token_on_every_request:
  assumes "token_manager self = Some tm"
  shows "headers (fst (snd (invoke gat (recording send) c self (log, w)))) ''Authorization''
           = Some (''Bearer '' @ fst (gat tm))
       \<and> (\<exists>r w'. snd (snd (invoke gat (recording send) c self (log, w))) = (log @ [r], w')
             \<and> authorization r = Some (''Bearer '' @ fst (gat tm)))
       \<and> map authorization (fst (snd (snd (run_calls gat (recording send) calls self ([], w)))))
           = map (\<lambda>t. Some (''Bearer '' @ t)) (issued_tokens gat tm (length calls))"
proof -
  have self': "ensure_valid_token gat self =
      self\<lparr>token_manager := Some (snd (gat tm)),
           headers := (headers self)(''Authorization'' \<mapsto> ''Bearer '' @ fst (gat tm))\<rparr>"
    using assms by (rule ensure_valid_token_provider)
  have one: "headers (fst (snd (invoke gat (recording send) c self (log, w)))) ''Authorization''
           = Some (''Bearer '' @ fst (gat tm))"
    by (simp add: invoke_client self')
  obtain r w' where step:
    "snd (snd (invoke gat (recording send) c self (log, w))) = (log @ [r], w')"
    "req_headers r = headers (ensure_valid_token gat self)"
    using invoke_recording_log[of gat send c self log w] by blast
  have "authorization r = Some (''Bearer '' @ fst (gat tm))"
    by (simp add: authorization_def step(2) self')
  with step(1) have two:
    "\<exists>r w'. snd (snd (invoke gat (recording send) c self (log, w))) = (log @ [r], w')
             \<and> authorization r = Some (''Bearer '' @ fst (gat tm))"
    by blast
  have three: "map authorization (fst (snd (snd (run_calls gat (recording send) calls self ([], w)))))
           = map (\<lambda>t. Some (''Bearer '' @ t)) (issued_tokens gat tm (length calls))"
    using run_calls_provider_authorization[OF assms, of gat send calls "[]" w] by simp
  from one two three show ?thesis by blast
qed

theorem provider_token_on_every_request_witness:
  "map authorization
     (fst (snd (snd (run_calls rotating (recording (replying ok_response))
        [Get ''/aps'' None, Post ''/wlans'' None None] rotating_client ([], ())))))
     = [Some ''Bearer t1'', Some ''Bearer t2'']"
proof -
  have tm: "token_manager rotating_client = Some [''t1'', ''t2'']"
    by (simp add: rotating_client_def)
  have "issued_tokens rotating [''t1'', ''t2''] (length [Get ''/aps'' None, Post ''/wlans'' None None])
          = [''t1'', ''t2'']"
    by (simp add: numeral_2_eq_2)
  with provider_token_on_every_request
         [OF tm, of rotating "replying ok_response" "Get ''/aps'' None" "[]" "()"
            "[Get ''/aps'' None, Post ''/wlans'' None None]"]
  show ?thesis by simp
qed

subsection \<open>Error statuses\<close>

text \<open>
  Claim C6. Every verb raises the HTTP error carrying the status exactly when the status
  is 400 or more. The code does not do so at status 600: GET classes the response as an
  API error in its log line (the test is \<open>status_code >= 400\<close>), and its docstring
  promises the HTTP error when the request fails, but \<open>raise_for_status\<close> does not
  raise there and GET returns the decoded body as a success.
\<close>

theorem get_status_600_returns_body:
  "status_code \<lparr>status_code = 600, body_text = ''{}'', json = Some (JObj [])\<rparr> \<ge> 400
   \<and> fst (get (fixed_token ''abc'') (replying \<lparr>status_code = 600, body_text = ''{}'', json = Some (JObj [])\<rparr>)
            static_client () ''/aps'' None) = Inr (JObj [])"
  by (simp add: get_result[of "replying \<lparr>status_code = 600, body_text = ''{}'', json = Some (JObj [])\<rparr>" "()"
                   "\<lparr>status_code = 600, body_text = ''{}'', json = Some (JObj [])\<rparr>", OF replying_answers]
        raise_for_status_def strip_def isspace_def)

subsection \<open>The static token\<close>

text \<open>
  Claim C7. Without a token manager, the Authorization header is \<open>Bearer\<close> followed
  by the static token given at construction for the whole life of the client: no sequence
  of verb calls changes the client, and every request carries that header.
\<close>

theorem static_token_for_lifetime:
  assumes "init gat h0 base (Some tok) None = Inr self"
  shows "headers self ''Authorization'' = Some (''Bearer '' @ tok)
       \<and> fst (snd (run_calls gat (recording send) calls self ([], w))) = self
       \<and> map authorization (fst (snd (snd (run_calls gat (recording send) calls self ([], w)))))
           = replicate (length calls) (Some (''Bearer '' @ tok))"
proof -
  have st: "token_manager self = None" and hd: "headers self ''Authorization'' = Some (''Bearer '' @ tok)"
    using init_static[OF assms] by simp_all
  have "fst (snd (run_calls gat (recording send) calls self ([], w))) = self"
    using st by (rule run_calls_static_client)
  moreover have "map authorization (fst (snd (snd (run_calls gat (recording send) calls self ([], w)))))
           = replicate (length calls) (Some (''Bearer '' @ tok))"
    using run_calls_static_authorization[OF st, of gat send calls "[]" w] hd by simp
  ultimately show ?thesis using hd by blast
qed

theorem static_token_for_lifetime_witness:
  "fst (snd (run_calls (fixed_token ''unused'') (recording (replying ok_response))
        [Get ''/aps'' None, Put ''/wlans'' None None, Delete ''/wlans/1'' None] static_client ([], ())))
     = static_client
   \<and> map authorization
     (fst (snd (snd (run_calls (fixed_token ''unused'') (recording (replying ok_response))
        [Get ''/aps'' None, Put ''/wlans'' None None, Delete ''/wlans/1'' None] static_client ([], ())))))
     = [Some ''Bearer abc'', Some ''Bearer abc'', Some ''Bearer abc'']"
proof -
  have i: "init (fixed_token ''unused'') no_headers ''https://central.example'' (Some ''abc'') None
             = Inr static_client"
    by (simp add: init_def static_client_def update_token_def rstrip_def)
  have "replicate (length [Get ''/aps'' None, Put ''/wlans'' None None, Delete ''/wlans/1'' None])
          (Some (''Bearer '' @ ''abc'')) = [Some ''Bearer abc'', Some ''Bearer abc'', Some ''Bearer abc'']"
    by (simp add: numeral_3_eq_3)
  with static_token_for_lifetime
         [OF i, of "replying ok_response"
            "[Get ''/aps'' None, Put ''/wlans'' None None, Delete ''/wlans/1'' None]" "()"]
  show ?thesis by simp
qed

subsection \<open>Request addresses\<close>

text \<open>
  Claim C8. The address of every request is the base address given at construction,
  stripped of its trailing slashes, followed by the endpoint as it is: nothing is inserted
  between them and nothing else is normalised.
\<close>

theorem request_url_is_stripped_base_plus_endpoint:
  assumes "init gat h0 base tok tmo = Inr self"
  shows "map url (fst (snd (snd (run_calls gat (recording send) calls self ([], w)))))
           = map (\<lambda>c. rstrip ''/'' base @ endpoint_of c) calls
       \<and> (\<exists>n. base = rstrip ''/'' base @ replicate n CHR ''/'')
       \<and> (\<forall>t. rstrip ''/'' base \<noteq> t @ ''/'')"
proof -
  have b: "base_url self = rstrip ''/'' base"
    using assms by (rule init_base_url)
  have "map url (fst (snd (snd (run_calls gat (recording send) calls self ([], w)))))
           = map (\<lambda>c. rstrip ''/'' base @ endpoint_of c) calls"
    using run_calls_urls[of gat send calls self "[]" w] b by simp
  moreover have "\<exists>n. base = rstrip ''/'' base @ replicate n CHR ''/''"
    by (rule rstrip_slash_tail)
  moreover have "\<forall>t. rstrip ''/'' base \<noteq> t @ ''/''"
    using rstrip_no_trailing[of "''/''" base _ "CHR ''/''"] by simp
  ultimately show ?thesis by blast
qed

theorem request_url_is_stripped_base_plus_endpoint_witness:
  "map url (fst (snd (snd (run_calls (fixed_token ''unused'') (recording (replying ok_response))
        [Get ''/aps'' None, Delete ''wlans//1/'' None] static_client ([], ())))))
     = [''https://central.example/aps'', ''https://central.examplewlans//1/'']"
proof -
  have i: "init (fixed_token ''unused'') no_headers ''https://central.example//'' (Some ''abc'') None
             = Inr static_client"
    by (simp add: init_def static_client_def update_token_def rstrip_def)
  have "rstrip ''/'' ''https://central.example//'' = ''https://central.example''"
    by (simp add: rstrip_def)
  with request_url_is_stripped_base_plus_endpoint
         [OF i, of "replying ok_response" "[Get ''/aps'' None, Delete ''wlans//1/'' None]" "()"]
  show ?thesis by simp
qed

subsection \<open>The type of a successful result\<close>

text \<open>
  Claim C9. Every verb returns a mapping on success. As stated this fails on the code:
  a body that decodes to a JSON array is returned as the list it decodes to.
\<close>

theorem get_returns_list_counterexample:
  "fst (get (fixed_token ''abc'') (replying \<lparr>status_code = 200, body_text = ''[1]'', json = Some (JArr [JInt 1])\<rparr>)
          static_client () ''/aps'' None) = Inr (JArr [JInt 1])
   \<and> is_mapping (JArr [JInt 1]) = False"
  by (simp add: get_result[of "replying \<lparr>status_code = 200, body_text = ''[1]'', json = Some (JArr [JInt 1])\<rparr>" "()"
                   "\<lparr>status_code = 200, body_text = ''[1]'', json = Some (JArr [JInt 1])\<rparr>", OF replying_answers]
        raise_for_status_def strip_def isspace_def)

text \<open>
  Claim C9, amended. On success every verb returns the decoded body as it is, except
  that GET returns the empty mapping for an empty or blank body, a body that does not
  decode, and a body that decodes to null; so the result is a mapping whenever the body
  decodes to a JSON object.
\<close>

theorem success_value_is_decoded_body:
  assumes "\<And>r. fst (send r w) = resp"
    and "fst (invoke gat send c self w) = Inr v"
  shows "(json resp = Some v
          \<or> ((\<exists>e ps. c = Get e ps) \<and> v = JObj []
              \<and> (body_text resp = [] \<or> strip (body_text resp) = [] \<or> json resp = None
                  \<or> json resp = Some JNull)))
       \<and> ((\<exists>kvs. json resp = Some (JObj kvs)) \<longrightarrow> is_mapping v)"
  using assms(2)
  by (cases c)
     (auto simp add: get_result[of send w resp, OF assms(1)] post_result[of send w resp, OF assms(1)]
        put_result[of send w resp, OF assms(1)] delete_result[of send w resp, OF assms(1)]
        split: option.splits sum.splits if_splits)

theorem success_value_is_decoded_body_witness:
  "is_mapping (JObj [(''count'', JInt 2)])
   \<and> fst (invoke (fixed_token ''abc'')
        (replying \<lparr>status_code = 201, body_text = ''{\"count\": 2}'', json = Some (JObj [(''count'', JInt 2)])\<rparr>)
        (Post ''/wlans'' None None) static_client ()) = Inr (JObj [(''count'', JInt 2)])"
proof -
  let ?resp = "\<lparr>status_code = 201, body_text = ''{\"count\": 2}'', json = Some (JObj [(''count'', JInt 2)])\<rparr>"
  have r: "fst (invoke (fixed_token ''abc'') (replying ?resp) (Post ''/wlans'' None None) static_client ())
             = Inr (JObj [(''count'', JInt 2)])"
    by (simp add: post_result[of "replying ?resp" "()" ?resp, OF replying_answers] raise_for_status_def)
  from success_value_is_decoded_body[of "replying ?resp" "()" ?resp "fixed_token ''abc''"
         "Post ''/wlans'' None None" static_client "JObj [(''count'', JInt 2)]", OF replying_answers r]
  show ?thesis using r by simp
qed

subsection \<open>Both credential sources\<close>

text \<open>
  Claim C10. Construction with both a static token and a token manager succeeds, and
  the token manager wins: the header holds the token fetched from it, whatever the static
  token is.
\<close>

theorem init_provider_takes_precedence:
  "init gat h0 base (Some tok) (Some tm) =
     Inr \<lparr>base_url = rstrip ''/'' base,
          token_manager = Some (snd (gat tm)),
          headers = h0(''Content-Type'' \<mapsto> ''application/json'',
                       ''Authorization'' \<mapsto> ''Bearer '' @ fst (gat tm))\<rparr>"
  by (simp add: init_def update_token_def split: prod.splits)

theorem init_provider_takes_precedence_witness:
  "init rotating no_headers ''https://central.example'' (Some ''static'') (Some [''fresh'']) =
     Inr \<lparr>base_url = ''https://central.example'',
          token_manager = Some [''fresh''],
          headers = no_headers(''Content-Type'' \<mapsto> ''application/json'',
                               ''Authorization'' \<mapsto> ''Bearer fresh'')\<rparr>"
  using init_provider_takes_precedence [of rotating no_headers "''https://central.example''" "''static''" "[''fresh'']"]
  by (simp add: rstrip_def)

end
